theory Spec2Isabelle
  imports Complex_Main
begin

section \<open>Mapping rules (core/mapping.py)\<close>

text \<open>
  Python floats are modelled as the reals: the value transform is read as exact
  arithmetic, so nothing below speaks about rounding, overflow, infinities or NaN, and no
  numeric bound or identity of the double-precision results is stated. The one arithmetic
  failure Python has on this path, float division by zero raising ZeroDivisionError, is a
  value of the result type.
\<close>

datatype py_error = ZeroDivisionError | Full | Empty

definition py_truediv :: "real \<Rightarrow> real \<Rightarrow> py_error + real" where
  "py_truediv a b = (if b = 0 then Inl ZeroDivisionError else Inr (a / b))"

text \<open>The dataclass GenericOSCMapping.\<close>

record GenericOSCMapping =
  address :: string
  data_path :: string
  min_in :: real
  max_in :: real
  min_out :: real
  max_out :: real
  clamp :: bool
  invert :: bool

text \<open>The dataclass OSCMapping.\<close>

record OSCMapping =
  address :: string
  object_name :: string
  shapekey_name :: string
  armature_name :: string
  bone_name :: string
  rotation_axis :: string
  rotation_mode :: string
  min_in :: real
  max_in :: real
  min_out :: real
  max_out :: real
  clamp :: bool
  invert :: bool

text \<open>GenericOSCMapping.map_value: normalise, clamp, invert, remap.\<close>

definition GenericOSCMapping_map_value :: "GenericOSCMapping \<Rightarrow> real \<Rightarrow> py_error + real" where
  "GenericOSCMapping_map_value self v =
     (case (if GenericOSCMapping.max_in self \<noteq> GenericOSCMapping.min_in self
            then py_truediv (v - GenericOSCMapping.min_in self)
                   (GenericOSCMapping.max_in self - GenericOSCMapping.min_in self)
            else Inr 0) of
        Inl e \<Rightarrow> Inl e
      | Inr t0 \<Rightarrow>
          (let t1 = (if GenericOSCMapping.clamp self then max 0 (min 1 t0) else t0);
               t2 = (if GenericOSCMapping.invert self then 1 - t1 else t1)
           in Inr (GenericOSCMapping.min_out self
                     + t2 * (GenericOSCMapping.max_out self - GenericOSCMapping.min_out self))))"

text \<open>OSCMapping.map_value: the same steps, written a second time in the source.\<close>

definition OSCMapping_map_value :: "OSCMapping \<Rightarrow> real \<Rightarrow> py_error + real" where
  "OSCMapping_map_value self v =
     (case (if OSCMapping.max_in self \<noteq> OSCMapping.min_in self
            then py_truediv (v - OSCMapping.min_in self)
                   (OSCMapping.max_in self - OSCMapping.min_in self)
            else Inr 0) of
        Inl e \<Rightarrow> Inl e
      | Inr t0 \<Rightarrow>
          (let t1 = (if OSCMapping.clamp self then max 0 (min 1 t0) else t0);
               t2 = (if OSCMapping.invert self then 1 - t1 else t1)
           in Inr (OSCMapping.min_out self
                     + t2 * (OSCMapping.max_out self - OSCMapping.min_out self))))"

section \<open>Routing table (core/mapping.py, properties/scene_props.py)\<close>

text \<open>
  The configuration the table is built from: the two PropertyGroup collections stored on
  the Scene, and the Scene's server settings. FloatProperty values are reals here.
\<close>

record GenericOSCMappingItem =
  address :: string
  data_path :: string
  min_in :: real
  max_in :: real
  min_out :: real
  max_out :: real
  clamp :: bool
  invert :: bool
  fold :: bool

record OSCMappingItem =
  address :: string
  object_name :: string
  shapekey_name :: string
  armature_name :: string
  bone_name :: string
  rotation_axis :: string
  rotation_mode :: string
  min_in :: real
  max_in :: real
  min_out :: real
  max_out :: real
  clamp :: bool
  invert :: bool
  fold :: bool

record Scene =
  osc_ip :: string
  osc_port :: int
  osc_autokey :: bool
  osc_mappings :: "OSCMappingItem list"
  osc_generic_mappings :: "GenericOSCMappingItem list"

record Context =
  scene :: Scene

text \<open>
  str.strip() with no argument removes leading and trailing whitespace. A string is a list
  of characters with code points below 256, so of the characters of str.isspace the type
  holds tab, line feed, vertical tab, form feed, carriage return, the separators 0x1C to
  0x1F, space, next line (0x85) and no-break space (0xA0); the whitespace of Python above
  U+00FF is outside the type.
\<close>

definition isspace :: "char \<Rightarrow> bool" where
  "isspace c \<longleftrightarrow>
     c \<in> {CHR 0x09, CHR 0x0A, CHR 0x0B, CHR 0x0C, CHR 0x0D,
          CHR 0x1C, CHR 0x1D, CHR 0x1E, CHR 0x1F, CHR 0x20, CHR 0x85, CHR 0xA0}"

definition strip :: "string \<Rightarrow> string" where
  "strip s = rev (dropWhile isspace (rev (dropWhile isspace s)))"

text \<open>The constructor call of the first loop of build_mapping_table_extended.\<close>

definition OSCMapping_of_item :: "OSCMappingItem \<Rightarrow> OSCMapping" where
  "OSCMapping_of_item item =
     \<lparr> OSCMapping.address = strip (OSCMappingItem.address item),
       object_name = strip (OSCMappingItem.object_name item),
       shapekey_name = strip (OSCMappingItem.shapekey_name item),
       armature_name = strip (OSCMappingItem.armature_name item),
       bone_name = strip (OSCMappingItem.bone_name item),
       rotation_axis = OSCMappingItem.rotation_axis item,
       rotation_mode = OSCMappingItem.rotation_mode item,
       min_in = OSCMappingItem.min_in item,
       max_in = OSCMappingItem.max_in item,
       min_out = OSCMappingItem.min_out item,
       max_out = OSCMappingItem.max_out item,
       clamp = OSCMappingItem.clamp item,
       invert = OSCMappingItem.invert item \<rparr>"

text \<open>The constructor call of the second loop.\<close>

definition GenericOSCMapping_of_item :: "GenericOSCMappingItem \<Rightarrow> GenericOSCMapping" where
  "GenericOSCMapping_of_item item =
     \<lparr> GenericOSCMapping.address = strip (GenericOSCMappingItem.address item),
       data_path = strip (GenericOSCMappingItem.data_path item),
       min_in = GenericOSCMappingItem.min_in item,
       max_in = GenericOSCMappingItem.max_in item,
       min_out = GenericOSCMappingItem.min_out item,
       max_out = GenericOSCMappingItem.max_out item,
       clamp = GenericOSCMappingItem.clamp item,
       invert = GenericOSCMappingItem.invert item \<rparr>"

text \<open>
  The lists of the table hold objects of either class; the tick tells them apart with
  isinstance.
\<close>

datatype mapping = OSC OSCMapping | Generic GenericOSCMapping

definition mapping_address :: "mapping \<Rightarrow> string" where
  "mapping_address m =
     (case m of OSC c \<Rightarrow> OSCMapping.address c | Generic g \<Rightarrow> GenericOSCMapping.address g)"

text \<open>
  A Python dict keeps its keys in insertion order, so the table is an association list
  with one entry per key. table.setdefault(k, []).append(m) appends to the list of an
  existing key and otherwise adds the key at the end.
\<close>

type_synonym table = "(string \<times> mapping list) list"

fun setdefault_append :: "string \<Rightarrow> mapping \<Rightarrow> table \<Rightarrow> table" where
  "setdefault_append k m [] = [(k, [m])]"
| "setdefault_append k m ((k', ms) # rest) =
     (if k' = k then (k', ms @ [m]) # rest else (k', ms) # setdefault_append k m rest)"

definition build_mapping_table_extended :: "Context \<Rightarrow> table" where
  "build_mapping_table_extended ctx =
     (let table = foldl (\<lambda>table item.
                     let m = OSCMapping_of_item item
                     in setdefault_append (OSCMapping.address m) (OSC m) table)
                   [] (osc_mappings (scene ctx))
      in foldl (\<lambda>table item.
                  let m = GenericOSCMapping_of_item item
                  in setdefault_append (GenericOSCMapping.address m) (Generic m) table)
           table (osc_generic_mappings (scene ctx)))"

text \<open>
  The grouping in words: all rules in enumeration order (character rules, then generic
  rules), the addresses in order of first encounter, and under each address the rules
  that carry it, in enumeration order.
\<close>

definition rules_of :: "Context \<Rightarrow> mapping list" where
  "rules_of ctx =
     map (\<lambda>item. OSC (OSCMapping_of_item item)) (osc_mappings (scene ctx))
     @ map (\<lambda>item. Generic (GenericOSCMapping_of_item item)) (osc_generic_mappings (scene ctx))"

definition first_encounters :: "string list \<Rightarrow> string list" where
  "first_encounters ks = rev (remdups (rev ks))"

definition grouped_by_address :: "mapping list \<Rightarrow> table" where
  "grouped_by_address ms =
     map (\<lambda>a. (a, filter (\<lambda>m. mapping_address m = a) ms))
       (first_encounters (map mapping_address ms))"

section \<open>Server state, queue and lifecycle (core/osc_server.py)\<close>

text \<open>
  An OSC argument as python-osc hands it over. bool is a subclass of int in Python, so a
  boolean argument passes isinstance(a, (float, int)).
\<close>

datatype osc_arg =
    OSCFloat real
  | OSCInt int
  | OSCBool bool
  | OSCString string
  | OSCBlob "nat list"
  | OSCNil

type_synonym message = "string \<times> osc_arg list"

text \<open>
  queue.Queue of the standard library: maxsize, and the deque of items. A maxsize of zero
  or less means no bound. put_nowait raises Full only when maxsize is positive and
  reached; get_nowait raises Empty on an empty deque.
\<close>

record Queue =
  maxsize :: int
  queue :: "message list"

definition put_nowait :: "Queue \<Rightarrow> message \<Rightarrow> py_error + Queue" where
  "put_nowait q item =
     (if 0 < maxsize q \<and> maxsize q \<le> int (length (queue q)) then Inl Full
      else Inr (q\<lparr>queue := queue q @ [item]\<rparr>))"

definition get_nowait :: "Queue \<Rightarrow> py_error + (message \<times> Queue)" where
  "get_nowait q =
     (case queue q of [] \<Rightarrow> Inl Empty | item # rest \<Rightarrow> Inr (item, q\<lparr>queue := rest\<rparr>))"

definition empty :: "Queue \<Rightarrow> bool" where
  "empty q \<longleftrightarrow> queue q = []"

text \<open>
  Handles of the listener: the server is known by the address it is bound to, the
  dispatcher by its default handler (always osc_handler), the thread by the server whose
  requests it handles.
\<close>

type_synonym ThreadingOSCUDPServer = "string \<times> int"

datatype Dispatcher = Dispatcher_default_osc_handler

datatype Thread = Thread_serve ThreadingOSCUDPServer

record OSCState =
  server_thread :: "Thread option"
  server :: "ThreadingOSCUDPServer option"
  dispatcher :: "Dispatcher option"
  msg_queue :: Queue
  running :: bool

text \<open>The class attributes of OSCState: msg_queue is queue.Queue(), whose maxsize is 0.\<close>

definition osc_state :: OSCState where
  "osc_state =
     \<lparr> server_thread = None, server = None, dispatcher = None,
       msg_queue = \<lparr> maxsize = 0, queue = [] \<rparr>, running = False \<rparr>"

text \<open>osc_handler: push, and swallow Full.\<close>

definition osc_handler :: "string \<Rightarrow> osc_arg list \<Rightarrow> OSCState \<Rightarrow> OSCState" where
  "osc_handler addr args st =
     (case put_nowait (msg_queue st) (addr, args) of
        Inr q \<Rightarrow> st\<lparr>msg_queue := q\<rparr>
      | Inl e \<Rightarrow> st)"

text \<open>
  What start_server needs from outside the program: whether the bundled python-osc was
  importable, and the creation of the UDP server with its socket options, which either
  gives the server or raises OSError with a message.
\<close>

record Environment =
  pythonosc_imported :: bool
  create_server :: "string \<Rightarrow> int \<Rightarrow> string + ThreadingOSCUDPServer"

definition start_server ::
  "Environment \<Rightarrow> string \<Rightarrow> int \<Rightarrow> OSCState \<Rightarrow> string option \<times> OSCState" where
  "start_server env ip port st =
     (if running st then (Some ''Server already started.'', st)
      else if \<not> pythonosc_imported env
        then (Some ''python-osc could not be imported (check addon vendors folder)'', st)
      else (case create_server env ip port of
              Inr srv \<Rightarrow>
                (None, st\<lparr>dispatcher := Some Dispatcher_default_osc_handler,
                          server := Some srv,
                          running := True,
                          server_thread := Some (Thread_serve srv)\<rparr>)
            | Inl e \<Rightarrow>
                (Some (''socket error: '' @ e),
                 st\<lparr>running := False, server := None, server_thread := None\<rparr>)))"

text \<open>stop_server: a no-op when stopped; otherwise all handles go and the queue is cleared.\<close>

definition stop_server :: "OSCState \<Rightarrow> OSCState" where
  "stop_server st =
     (if \<not> running st then st
      else st\<lparr>running := False, server := None, server_thread := None, dispatcher := None,
              msg_queue := (msg_queue st)\<lparr>queue := []\<rparr>\<rparr>)"

section \<open>The timer step (core/osc_server.py)\<close>

text \<open>The tuples appended to updates_to_apply.\<close>

datatype update =
    Shapekey string string real
  | Bone string string string real string
  | GenericUpdate string real

text \<open>The first numeric argument of a message, as a float.\<close>

definition is_numeric :: "osc_arg \<Rightarrow> bool" where
  "is_numeric a = (case a of OSCFloat x \<Rightarrow> True | OSCInt i \<Rightarrow> True | OSCBool b \<Rightarrow> True | _ \<Rightarrow> False)"

definition float :: "osc_arg \<Rightarrow> real" where
  "float a = (case a of OSCFloat x \<Rightarrow> x | OSCInt i \<Rightarrow> real_of_int i
                | OSCBool b \<Rightarrow> (if b then 1 else 0) | _ \<Rightarrow> 0)"

fun first_numeric :: "osc_arg list \<Rightarrow> real option" where
  "first_numeric [] = None"
| "first_numeric (a # args) = (if is_numeric a then Some (float a) else first_numeric args)"

text \<open>The body of the loop over table[address], for one mapping.\<close>

definition mapping_updates :: "mapping \<Rightarrow> real \<Rightarrow> py_error + update list" where
  "mapping_updates m val =
     (case m of
        OSC c \<Rightarrow>
          (case OSCMapping_map_value c val of
             Inl e \<Rightarrow> Inl e
           | Inr v \<Rightarrow>
               Inr ((if OSCMapping.shapekey_name c \<noteq> []
                     then [Shapekey (OSCMapping.object_name c) (OSCMapping.shapekey_name c) v]
                     else [])
                    @ (if OSCMapping.bone_name c \<noteq> [] \<and> OSCMapping.armature_name c \<noteq> []
                       then [Bone (OSCMapping.armature_name c) (OSCMapping.bone_name c)
                               (OSCMapping.rotation_axis c) v (OSCMapping.rotation_mode c)]
                       else [])))
      | Generic g \<Rightarrow>
          (case GenericOSCMapping_map_value g val of
             Inl e \<Rightarrow> Inl e
           | Inr v \<Rightarrow> Inr [GenericUpdate (GenericOSCMapping.data_path g) v]))"

fun rules_updates :: "mapping list \<Rightarrow> real \<Rightarrow> py_error + update list" where
  "rules_updates [] val = Inr []"
| "rules_updates (m # ms) val =
     (case mapping_updates m val of
        Inl e \<Rightarrow> Inl e
      | Inr us \<Rightarrow> (case rules_updates ms val of Inl e \<Rightarrow> Inl e | Inr rest \<Rightarrow> Inr (us @ rest)))"

text \<open>The body of the loop over messages_batch, for one message.\<close>

definition message_updates :: "table \<Rightarrow> message \<Rightarrow> py_error + update list" where
  "message_updates table msg =
     (case first_numeric (snd msg) of
        None \<Rightarrow> Inr []
      | Some val \<Rightarrow>
          (case map_of table (fst msg) of
             None \<Rightarrow> Inr []
           | Some ms \<Rightarrow> rules_updates ms val))"

fun collect_updates :: "table \<Rightarrow> message list \<Rightarrow> py_error + update list" where
  "collect_updates table [] = Inr []"
| "collect_updates table (msg # batch) =
     (case message_updates table msg of
        Inl e \<Rightarrow> Inl e
      | Inr us \<Rightarrow>
          (case collect_updates table batch of Inl e \<Rightarrow> Inl e | Inr rest \<Rightarrow> Inr (us @ rest)))"

text \<open>The drain loop: at most max_per_tick messages, in arrival order.\<close>

definition max_per_tick :: nat where
  "max_per_tick = 100"

function drain :: "nat \<Rightarrow> Queue \<Rightarrow> message list \<Rightarrow> message list \<times> Queue" where
  "drain processed q messages_batch =
     (if \<not> empty q \<and> processed < max_per_tick
      then (case get_nowait q of
              Inr (msg, q') \<Rightarrow> drain (processed + 1) q' (messages_batch @ [msg])
            | Inl e \<Rightarrow> (messages_batch, q))
      else (messages_batch, q))"
  by pat_completeness auto
termination
  by (relation "measure (\<lambda>(processed, q, messages_batch). max_per_tick - processed)") auto

declare drain.simps [simp del]

text \<open>
  The apply layer works on the host application's data, which is outside the program:
  the three apply functions and the view-layer update are parameters, each taking the
  host's data to its new value and either returning or raising. The boolean the apply
  functions return is not read by the timer step.
\<close>

datatype 'w outcome = Returned 'w | Raised string 'w

record 'w host =
  apply_shapekey_value :: "string \<Rightarrow> string \<Rightarrow> real \<Rightarrow> 'w \<Rightarrow> 'w outcome"
  apply_bone_rotation :: "string \<Rightarrow> string \<Rightarrow> string \<Rightarrow> real \<Rightarrow> string \<Rightarrow> 'w \<Rightarrow> 'w outcome"
  apply_generic_value :: "string \<Rightarrow> real \<Rightarrow> 'w \<Rightarrow> 'w outcome"
  view_layer_update :: "'w \<Rightarrow> 'w outcome"

definition apply_update :: "'w host \<Rightarrow> update \<Rightarrow> 'w \<Rightarrow> 'w outcome" where
  "apply_update h u w =
     (case u of
        Shapekey obj sk v \<Rightarrow> apply_shapekey_value h obj sk v w
      | Bone arm bone axis v mode \<Rightarrow> apply_bone_rotation h arm bone axis v mode w
      | GenericUpdate path v \<Rightarrow> apply_generic_value h path v w)"

text \<open>The for loop inside the try: the first raise leaves the loop.\<close>

fun apply_updates :: "'w host \<Rightarrow> update list \<Rightarrow> 'w \<Rightarrow> 'w outcome" where
  "apply_updates h [] w = Returned w"
| "apply_updates h (u # us) w =
     (case apply_update h u w of
        Raised e w' \<Rightarrow> Raised e w'
      | Returned w' \<Rightarrow> apply_updates h us w')"

text \<open>
  The whole try statement: the loop, then one view-layer update when there was anything
  to apply; the handler prints and goes on, so the host's data stays as the raise left it.
\<close>

definition apply_all :: "'w host \<Rightarrow> update list \<Rightarrow> 'w \<Rightarrow> 'w" where
  "apply_all h updates_to_apply w =
     (case apply_updates h updates_to_apply w of
        Raised e w' \<Rightarrow> w'
      | Returned w' \<Rightarrow>
          (if updates_to_apply \<noteq> []
           then (case view_layer_update h w' of Raised e w'' \<Rightarrow> w'' | Returned w'' \<Rightarrow> w'')
           else w'))"

text \<open>
  osc_timer_step_extended. The result is what the call returns (the delay of the next
  call, or None to stop the timer) or the exception that leaves it, with the server state
  and the host's data afterwards.
\<close>

definition osc_timer_step_extended ::
  "'w host \<Rightarrow> Context \<Rightarrow> OSCState \<Rightarrow> 'w \<Rightarrow> (py_error + real option) \<times> OSCState \<times> 'w" where
  "osc_timer_step_extended h ctx st w =
     (if \<not> running st then (Inr None, st, w)
      else
        (let table = build_mapping_table_extended ctx;
             (messages_batch, q) = drain 0 (msg_queue st) [];
             st' = st\<lparr>msg_queue := q\<rparr>
         in if messages_batch = [] then (Inr (Some (1 / 100)), st', w)
            else (case collect_updates table messages_batch of
                    Inl e \<Rightarrow> (Inl e, st', w)
                  | Inr updates_to_apply \<Rightarrow>
                      (Inr (Some (1 / 100)), st', apply_all h updates_to_apply w))))"

text \<open>
  Per-command isolation in words: every command of the batch is applied, whether or not
  an earlier one raised.
\<close>

fun apply_isolated :: "'w host \<Rightarrow> update list \<Rightarrow> 'w \<Rightarrow> 'w" where
  "apply_isolated h [] w = w"
| "apply_isolated h (u # us) w =
     (case apply_update h u w of
        Raised e w' \<Rightarrow> apply_isolated h us w'
      | Returned w' \<Rightarrow> apply_isolated h us w')"

text \<open>
  A host for running the timer step on examples: its data is the list of the commands
  applied so far; applying the shape key named locked raises after the value is set, as
  a failing keyframe_insert would.
\<close>

definition recording_host :: "update list host" where
  "recording_host =
     \<lparr> apply_shapekey_value = (\<lambda>obj sk v w.
         if sk = ''locked''
         then Raised ''keyframe_insert failed'' (w @ [Shapekey obj sk v])
         else Returned (w @ [Shapekey obj sk v])),
       apply_bone_rotation = (\<lambda>arm bone axis v mode w.
         Returned (w @ [Bone arm bone axis v mode])),
       apply_generic_value = (\<lambda>path v w. Returned (w @ [GenericUpdate path v])),
       view_layer_update = (\<lambda>w. Returned w) \<rparr>"

section \<open>Example configuration\<close>

text \<open>
  A scene used to run the definitions on concrete inputs: three character rules (one on a
  shape key that cannot be keyed, one as in the first end-to-end scenario of the
  specification, one with neither a shape key nor a bone) and one generic rule whose
  address is stored with surrounding blanks.
\<close>

definition smile_item :: OSCMappingItem where
  "smile_item =
     \<lparr> OSCMappingItem.address = ''/face/smile'', object_name = ''Face'',
       shapekey_name = ''smile'', armature_name = [], bone_name = [],
       rotation_axis = ''X'', rotation_mode = ''EULER'',
       min_in = 0, max_in = 1, min_out = 0, max_out = 1,
       clamp = True, invert = False, fold = False \<rparr>"

definition locked_item :: OSCMappingItem where
  "locked_item =
     \<lparr> OSCMappingItem.address = ''/x'', object_name = ''Face'',
       shapekey_name = ''locked'', armature_name = [], bone_name = [],
       rotation_axis = ''X'', rotation_mode = ''EULER'',
       min_in = 0, max_in = 1, min_out = 0, max_out = 1,
       clamp = True, invert = False, fold = False \<rparr>"

definition bare_item :: OSCMappingItem where
  "bare_item =
     \<lparr> OSCMappingItem.address = ''/bare'', object_name = ''Face'',
       shapekey_name = ''  '', armature_name = ''Rig'', bone_name = [],
       rotation_axis = ''X'', rotation_mode = ''EULER'',
       min_in = 0, max_in = 1, min_out = 0, max_out = 1,
       clamp = True, invert = False, fold = False \<rparr>"

definition frame_item :: GenericOSCMappingItem where
  "frame_item =
     \<lparr> GenericOSCMappingItem.address = '' /x '',
       data_path = ''bpy.context.scene.frame_current'',
       min_in = 0, max_in = 1, min_out = 0, max_out = 100,
       clamp = True, invert = False, fold = False \<rparr>"

definition example_ctx :: Context where
  "example_ctx =
     \<lparr> scene = \<lparr> osc_ip = ''0.0.0.0'', osc_port = 9000, osc_autokey = True,
                 osc_mappings = [locked_item, smile_item, bare_item],
                 osc_generic_mappings = [frame_item] \<rparr> \<rparr>"

section \<open>The value transform returns\<close>

lemma Generic_map_value_total:
  "GenericOSCMapping_map_value self v =
     Inr (GenericOSCMapping.min_out self
          + (let t0 = (if GenericOSCMapping.max_in self \<noteq> GenericOSCMapping.min_in self
                       then (v - GenericOSCMapping.min_in self)
                            / (GenericOSCMapping.max_in self - GenericOSCMapping.min_in self)
                       else 0);
                 t1 = (if GenericOSCMapping.clamp self then max 0 (min 1 t0) else t0)
             in if GenericOSCMapping.invert self then 1 - t1 else t1)
            * (GenericOSCMapping.max_out self - GenericOSCMapping.min_out self))"
  by (simp add: GenericOSCMapping_map_value_def py_truediv_def Let_def)

lemma OSC_map_value_total:
  "OSCMapping_map_value self v =
     Inr (OSCMapping.min_out self
          + (let t0 = (if OSCMapping.max_in self \<noteq> OSCMapping.min_in self
                       then (v - OSCMapping.min_in self)
                            / (OSCMapping.max_in self - OSCMapping.min_in self)
                       else 0);
                 t1 = (if OSCMapping.clamp self then max 0 (min 1 t0) else t0)
             in if OSCMapping.invert self then 1 - t1 else t1)
            * (OSCMapping.max_out self - OSCMapping.min_out self))"
  by (simp add: OSCMapping_map_value_def py_truediv_def Let_def)

section \<open>The table as a grouping\<close>

lemma first_encounters_snoc:
  "first_encounters (ks @ [k]) =
     (if k \<in> set ks then first_encounters ks else first_encounters ks @ [k])"
  by (simp add: first_encounters_def)

lemma distinct_first_encounters: "distinct (first_encounters ks)"
  by (simp add: first_encounters_def)

lemma set_first_encounters: "set (first_encounters ks) = set ks"
  by (simp add: first_encounters_def)

lemma setdefault_append_absent:
  "k \<notin> set ks \<Longrightarrow>
   setdefault_append k m (map (\<lambda>a. (a, f a)) ks) = map (\<lambda>a. (a, f a)) ks @ [(k, [m])]"
  by (induction ks) auto

lemma setdefault_append_present:
  "k \<in> set ks \<Longrightarrow> distinct ks \<Longrightarrow>
   setdefault_append k m (map (\<lambda>a. (a, f a)) ks) =
     map (\<lambda>a. (a, if a = k then f a @ [m] else f a)) ks"
  by (induction ks) auto

lemma filter_absent_key: "k \<notin> set (map f xs) \<Longrightarrow> filter (\<lambda>x. f x = k) xs = []"
  by (induction xs) auto

lemma setdefault_append_grouped:
  "setdefault_append (mapping_address m) m (grouped_by_address ms) = grouped_by_address (ms @ [m])"
proof (cases "mapping_address m \<in> set (map mapping_address ms)")
  case True
  then have "mapping_address m \<in> set (first_encounters (map mapping_address ms))"
    by (simp add: set_first_encounters)
  then have "setdefault_append (mapping_address m) m (grouped_by_address ms) =
      map (\<lambda>a. (a, if a = mapping_address m
                     then filter (\<lambda>m'. mapping_address m' = a) ms @ [m]
                     else filter (\<lambda>m'. mapping_address m' = a) ms))
        (first_encounters (map mapping_address ms))"
    unfolding grouped_by_address_def
    by (rule setdefault_append_present) (rule distinct_first_encounters)
  also have "\<dots> = grouped_by_address (ms @ [m])"
    using True by (auto simp: grouped_by_address_def first_encounters_snoc)
  finally show ?thesis .
next
  case False
  then have "mapping_address m \<notin> set (first_encounters (map mapping_address ms))"
    by (simp add: set_first_encounters)
  then have "setdefault_append (mapping_address m) m (grouped_by_address ms) =
      grouped_by_address ms @ [(mapping_address m, [m])]"
    unfolding grouped_by_address_def by (rule setdefault_append_absent)
  also have "\<dots> = grouped_by_address (ms @ [m])"
  proof -
    have none: "filter (\<lambda>m'. mapping_address m' = mapping_address m) ms = []"
      using False by (rule filter_absent_key)
    have keys: "first_encounters (map mapping_address (ms @ [m])) =
        first_encounters (map mapping_address ms) @ [mapping_address m]"
      using False by (simp add: first_encounters_snoc)
    have other: "(mapping_address m = a) = False"
      if "a \<in> set (first_encounters (map mapping_address ms))" for a
      using that False by (auto simp only: set_first_encounters)
    show ?thesis
      unfolding grouped_by_address_def
      by (simp add: none keys [simplified] other cong: map_cong)
  qed
  finally show ?thesis .
qed

lemma foldl_setdefault_append_grouped:
  "foldl (\<lambda>table m. setdefault_append (mapping_address m) m table) (grouped_by_address ms0) ms =
     grouped_by_address (ms0 @ ms)"
proof (induction ms arbitrary: ms0)
  case Nil
  show ?case by simp
next
  case (Cons m ms)
  show ?case
    using Cons.IH [of "ms0 @ [m]"] by (simp add: setdefault_append_grouped)
qed

lemma build_mapping_table_extended_grouped:
  "build_mapping_table_extended ctx = grouped_by_address (rules_of ctx)"
proof -
  have e: "grouped_by_address [] = []"
    by (simp add: grouped_by_address_def first_encounters_def)
  have c: "foldl (\<lambda>table item. let m = OSCMapping_of_item item
                     in setdefault_append (OSCMapping.address m) (OSC m) table) t xs =
           foldl (\<lambda>table m. setdefault_append (mapping_address m) m table) t
             (map (\<lambda>item. OSC (OSCMapping_of_item item)) xs)" for t xs
    by (simp add: foldl_map Let_def mapping_address_def)
  have g: "foldl (\<lambda>table item. let m = GenericOSCMapping_of_item item
                     in setdefault_append (GenericOSCMapping.address m) (Generic m) table) t xs =
           foldl (\<lambda>table m. setdefault_append (mapping_address m) m table) t
             (map (\<lambda>item. Generic (GenericOSCMapping_of_item item)) xs)" for t xs
    by (simp add: foldl_map Let_def mapping_address_def)
  have "build_mapping_table_extended ctx =
      foldl (\<lambda>table m. setdefault_append (mapping_address m) m table) (grouped_by_address [])
        (rules_of ctx)"
    unfolding build_mapping_table_extended_def c g
    by (simp only: Let_def e rules_of_def foldl_append)
  then show ?thesis
    by (simp only: foldl_setdefault_append_grouped append_Nil)
qed

section \<open>The timer step never raises, and what it drains\<close>

lemma mapping_updates_returns: "\<exists>us. mapping_updates m val = Inr us"
  by (cases m) (simp_all add: mapping_updates_def OSC_map_value_total Generic_map_value_total)

lemma rules_updates_returns: "\<exists>us. rules_updates ms val = Inr us"
proof (induction ms)
  case Nil
  show ?case by simp
next
  case (Cons m ms)
  obtain us where "mapping_updates m val = Inr us"
    using mapping_updates_returns by blast
  with Cons show ?case by auto
qed

lemma message_updates_returns: "\<exists>us. message_updates table msg = Inr us"
  using rules_updates_returns
  by (auto simp: message_updates_def split: option.splits)

lemma collect_updates_returns: "\<exists>us. collect_updates table batch = Inr us"
proof (induction batch)
  case Nil
  show ?case by simp
next
  case (Cons msg batch)
  obtain us where "message_updates table msg = Inr us"
    using message_updates_returns by blast
  with Cons show ?case by auto
qed

lemma rules_updates_append:
  "rules_updates (xs @ ys) val =
     (case rules_updates xs val of
        Inl e \<Rightarrow> Inl e
      | Inr us \<Rightarrow> (case rules_updates ys val of Inl e \<Rightarrow> Inl e | Inr rest \<Rightarrow> Inr (us @ rest)))"
  by (induction xs) (auto split: sum.splits)

lemma collect_updates_append:
  "collect_updates table (xs @ ys) =
     (case collect_updates table xs of
        Inl e \<Rightarrow> Inl e
      | Inr us \<Rightarrow> (case collect_updates table ys of Inl e \<Rightarrow> Inl e | Inr rest \<Rightarrow> Inr (us @ rest)))"
  by (induction xs) (auto split: sum.splits)

lemma drain_take_drop:
  "drain processed q messages_batch =
     (messages_batch @ take (max_per_tick - processed) (queue q),
      q\<lparr>queue := drop (max_per_tick - processed) (queue q)\<rparr>)"
proof (induction processed q messages_batch rule: drain.induct)
  case (1 processed q messages_batch)
  show ?case
  proof (cases "queue q")
    case Nil
    then show ?thesis
      by (subst drain.simps) (simp add: empty_def)
  next
    case (Cons msg rest)
    show ?thesis
    proof (cases "processed < max_per_tick")
      case True
      then obtain n where n: "max_per_tick - processed = Suc n"
        by (cases "max_per_tick - processed") auto
      then have n': "max_per_tick - Suc processed = n"
        by simp
      have g: "get_nowait q = Inr (msg, q\<lparr>queue := rest\<rparr>)"
        by (simp add: get_nowait_def Cons)
      have "drain processed q messages_batch =
          drain (processed + 1) (q\<lparr>queue := rest\<rparr>) (messages_batch @ [msg])"
        by (subst drain.simps) (simp add: empty_def Cons True g)
      also have "\<dots> = ((messages_batch @ [msg]) @ take n rest, q\<lparr>queue := drop n rest\<rparr>)"
        using "1.IH" [of "(msg, q\<lparr>queue := rest\<rparr>)" msg "q\<lparr>queue := rest\<rparr>"] True g
        by (simp add: empty_def Cons n')
      finally show ?thesis
        by (simp add: n Cons)
    next
      case False
      then show ?thesis
        by (subst drain.simps) simp
    qed
  qed
qed

lemma timer_step_running:
  assumes "running st"
  shows "osc_timer_step_extended h ctx st w =
     (let messages_batch = take max_per_tick (queue (msg_queue st));
          st' = st\<lparr>msg_queue := (msg_queue st)\<lparr>queue := drop max_per_tick (queue (msg_queue st))\<rparr>\<rparr>
      in if messages_batch = [] then (Inr (Some (1 / 100)), st', w)
         else (case collect_updates (build_mapping_table_extended ctx) messages_batch of
                 Inl e \<Rightarrow> (Inl e, st', w)
               | Inr updates_to_apply \<Rightarrow>
                   (Inr (Some (1 / 100)), st', apply_all h updates_to_apply w)))"
  using assms by (simp add: osc_timer_step_extended_def drain_take_drop Let_def)

lemma timer_step_reschedules:
  assumes "running st"
  shows "fst (osc_timer_step_extended h ctx st w) = Inr (Some (1 / 100))"
proof -
  obtain us where "collect_updates (build_mapping_table_extended ctx)
      (take max_per_tick (queue (msg_queue st))) = Inr us"
    using collect_updates_returns by blast
  then show ?thesis
    by (simp add: timer_step_running [OF assms] Let_def)
qed

lemma apply_updates_raise:
  assumes "apply_updates h pre w = Returned w1" and "apply_update h u w1 = Raised e w2"
  shows "apply_updates h (pre @ u # post) w = Raised e w2"
  using assms
proof (induction pre arbitrary: w)
  case Nil
  then show ?case by simp
next
  case (Cons a pre)
  then show ?case by (auto split: outcome.splits)
qed

section \<open>The apply loop and the queue\<close>

lemma apply_updates_isolated:
  "apply_updates h us w = Returned w' \<Longrightarrow> apply_isolated h us w = w'"
  by (induction us arbitrary: w) (auto split: outcome.splits)

lemma apply_all_returned:
  assumes "apply_updates h us w = Returned w'"
  shows "apply_all h us w =
     (if us \<noteq> []
      then (case view_layer_update h w' of Raised e w'' \<Rightarrow> w'' | Returned w'' \<Rightarrow> w'')
      else w')"
  using assms by (simp add: apply_all_def)

lemma apply_all_raised:
  assumes "apply_updates h pre w = Returned w1" and "apply_update h u w1 = Raised e w2"
  shows "apply_all h (pre @ u # post) w = w2"
  using apply_updates_raise [OF assms] by (simp add: apply_all_def)

lemma timer_step_survives_apply_error:
  assumes "running st"
    and "drain 0 (msg_queue st) [] = (batch, q)"
    and "collect_updates (build_mapping_table_extended ctx) batch = Inr (pre @ u # post)"
    and "apply_updates h pre w = Returned w1"
    and "apply_update h u w1 = Raised e w2"
  shows "osc_timer_step_extended h ctx st w = (Inr (Some (1 / 100)), st\<lparr>msg_queue := q\<rparr>, w2)"
proof -
  have "batch \<noteq> []"
    using assms(3) by (cases batch) auto
  moreover have "apply_all h (pre @ u # post) w = w2"
    using assms(4,5) by (rule apply_all_raised)
  ultimately show ?thesis
    using assms(1,2,3) by (simp add: osc_timer_step_extended_def)
qed

lemma put_nowait_not_full:
  assumes "maxsize q \<le> 0 \<or> int (length (queue q)) < maxsize q"
  shows "put_nowait q item = Inr (q\<lparr>queue := queue q @ [item]\<rparr>)"
  using assms by (auto simp: put_nowait_def)

lemma osc_handler_not_full:
  assumes "maxsize (msg_queue st) \<le> 0
           \<or> int (length (queue (msg_queue st))) < maxsize (msg_queue st)"
  shows "osc_handler addr args st =
     st\<lparr>msg_queue := (msg_queue st)\<lparr>queue := queue (msg_queue st) @ [(addr, args)]\<rparr>\<rparr>"
  using put_nowait_not_full [OF assms] by (simp add: osc_handler_def)

lemma osc_state_unbounded: "maxsize (msg_queue osc_state) = 0"
  by (simp add: osc_state_def)

lemma maxsize_kept:
  "maxsize (msg_queue (osc_handler addr args st)) = maxsize (msg_queue st)"
  "maxsize (msg_queue (snd (start_server env ip port st))) = maxsize (msg_queue st)"
  "maxsize (msg_queue (stop_server st)) = maxsize (msg_queue st)"
  "maxsize (msg_queue (fst (snd (osc_timer_step_extended h ctx st w)))) = maxsize (msg_queue st)"
proof -
  show "maxsize (msg_queue (fst (snd (osc_timer_step_extended h ctx st w)))) =
      maxsize (msg_queue st)"
    by (simp add: osc_timer_step_extended_def drain_take_drop Let_def split: sum.splits)
qed (auto simp: osc_handler_def put_nowait_def start_server_def stop_server_def
       split: sum.splits)

section \<open>Messages and rules that produce nothing\<close>

lemma first_numeric_None: "first_numeric args = None \<longleftrightarrow> (\<forall>a \<in> set args. \<not> is_numeric a)"
  by (induction args) auto

lemma message_updates_miss:
  assumes "(\<forall>a \<in> set args. \<not> is_numeric a) \<or> addr \<notin> fst ` set table"
  shows "message_updates table (addr, args) = Inr []"
proof (cases "first_numeric args")
  case None
  then show ?thesis by (simp add: message_updates_def)
next
  case (Some val)
  then have "\<not> (\<forall>a \<in> set args. \<not> is_numeric a)"
    using first_numeric_None [of args] by simp
  with assms have "map_of table addr = None"
    by (simp add: map_of_eq_None_iff)
  with Some show ?thesis by (simp add: message_updates_def)
qed

lemma collect_updates_skip:
  assumes "message_updates table msg = Inr []"
  shows "collect_updates table (pre @ msg # post) = collect_updates table (pre @ post)"
  using assms by (simp add: collect_updates_append split: sum.splits)

lemma apply_all_nothing: "apply_all h [] w = w"
  by (simp add: apply_all_def)

lemma timer_step_single:
  assumes "running st" and "queue (msg_queue st) = [msg]"
    and "message_updates (build_mapping_table_extended ctx) msg = Inr []"
  shows "osc_timer_step_extended h ctx st w =
     (Inr (Some (1 / 100)), st\<lparr>msg_queue := (msg_queue st)\<lparr>queue := []\<rparr>\<rparr>, w)"
  using assms
  by (simp add: timer_step_running Let_def max_per_tick_def apply_all_nothing)

lemma mapping_updates_malformed:
  assumes "OSCMapping.shapekey_name c = []"
    and "OSCMapping.bone_name c = [] \<or> OSCMapping.armature_name c = []"
  shows "mapping_updates (OSC c) val = Inr []"
  using assms by (auto simp: mapping_updates_def OSC_map_value_total)

lemma rules_updates_skip:
  assumes "mapping_updates m val = Inr []"
  shows "rules_updates (pre @ m # post) val = rules_updates (pre @ post) val"
  using assms by (simp add: rules_updates_append split: sum.splits)

lemma grouped_by_address_single: "grouped_by_address [m] = [(mapping_address m, [m])]"
  by (simp add: grouped_by_address_def first_encounters_def)

section \<open>The example configuration, evaluated\<close>

lemma strip_examples:
  "strip ''/x'' = ''/x''" "strip '' /x '' = ''/x''" "strip ''/face/smile'' = ''/face/smile''"
  "strip ''/bare'' = ''/bare''" "strip ''  '' = []" "strip [] = []" "strip ''Face'' = ''Face''"
  "strip ''smile'' = ''smile''" "strip ''locked'' = ''locked''" "strip ''Rig'' = ''Rig''"
  "strip ''bpy.context.scene.frame_current'' = ''bpy.context.scene.frame_current''"
  by (simp_all add: strip_def isspace_def)

lemma example_table:
  "build_mapping_table_extended example_ctx =
     [(''/x'', [OSC (OSCMapping_of_item locked_item), Generic (GenericOSCMapping_of_item frame_item)]),
      (''/face/smile'', [OSC (OSCMapping_of_item smile_item)]),
      (''/bare'', [OSC (OSCMapping_of_item bare_item)])]"
  by (simp add: build_mapping_table_extended_def example_ctx_def Let_def
        OSCMapping_of_item_def GenericOSCMapping_of_item_def
        locked_item_def smile_item_def bare_item_def frame_item_def strip_examples)

lemma example_updates:
  "collect_updates (build_mapping_table_extended example_ctx)
     [(''/face/smile'', [OSCFloat (1 / 2)]), (''/x'', [OSCString ''go'', OSCFloat (1 / 2)])] =
   Inr [Shapekey ''Face'' ''smile'' (1 / 2), Shapekey ''Face'' ''locked'' (1 / 2),
        GenericUpdate ''bpy.context.scene.frame_current'' 50]"
  by (simp add: example_table message_updates_def mapping_updates_def is_numeric_def float_def
        OSC_map_value_total Generic_map_value_total OSCMapping_of_item_def
        GenericOSCMapping_of_item_def locked_item_def smile_item_def frame_item_def
        strip_examples)

lemma example_pushes:
  "osc_handler ''/x'' [OSCString ''go'', OSCFloat (1 / 2)]
     (osc_handler ''/face/smile'' [OSCFloat (1 / 2)] (osc_state\<lparr>running := True\<rparr>)) =
   osc_state\<lparr>running := True,
     msg_queue := \<lparr> maxsize = 0,
       queue = [(''/face/smile'', [OSCFloat (1 / 2)]),
                (''/x'', [OSCString ''go'', OSCFloat (1 / 2)])] \<rparr>\<rparr>"
  by (simp add: osc_handler_def put_nowait_def osc_state_def)

lemma example_tick_applies:
  "osc_timer_step_extended recording_host example_ctx
     (osc_handler ''/face/smile'' [OSCFloat (1 / 2)] (osc_state\<lparr>running := True\<rparr>)) [] =
   (Inr (Some (1 / 100)), osc_state\<lparr>running := True\<rparr>,
    [Shapekey ''Face'' ''smile'' (1 / 2)])"
  by (simp add: timer_step_running osc_handler_def put_nowait_def osc_state_def
        max_per_tick_def Let_def example_table message_updates_def mapping_updates_def
        is_numeric_def float_def OSC_map_value_total OSCMapping_of_item_def smile_item_def
        strip_examples apply_all_def apply_update_def recording_host_def)

section \<open>Claims about the value transform\<close>

text \<open>
  C9. The two implementations of map_value agree: a character rule and a generic rule
  with the same min_in, max_in, min_out, max_out, clamp and invert map every input to the
  same value.
\<close>

theorem map_value_implementations_agree:
  assumes "OSCMapping.min_in c = GenericOSCMapping.min_in g"
    and "OSCMapping.max_in c = GenericOSCMapping.max_in g"
    and "OSCMapping.min_out c = GenericOSCMapping.min_out g"
    and "OSCMapping.max_out c = GenericOSCMapping.max_out g"
    and "OSCMapping.clamp c = GenericOSCMapping.clamp g"
    and "OSCMapping.invert c = GenericOSCMapping.invert g"
  shows "OSCMapping_map_value c v = GenericOSCMapping_map_value g v"
  unfolding OSCMapping_map_value_def GenericOSCMapping_map_value_def assms ..

theorem map_value_implementations_agree_witness:
  "OSCMapping_map_value
     \<lparr> OSCMapping.address = ''/face/smile'', object_name = ''Face'',
        shapekey_name = ''smile'', armature_name = [], bone_name = [],
        rotation_axis = ''X'', rotation_mode = ''EULER'',
        min_in = 0, max_in = 1, min_out = 0, max_out = 10, clamp = True, invert = True \<rparr> (1 / 5)
   = GenericOSCMapping_map_value
     \<lparr> GenericOSCMapping.address = ''/timeline/frame'',
        data_path = ''bpy.context.scene.frame_current'',
        min_in = 0, max_in = 1, min_out = 0, max_out = 10, clamp = True, invert = True \<rparr> (1 / 5)"
  using map_value_implementations_agree [where
     c = "\<lparr> OSCMapping.address = ''/face/smile'', object_name = ''Face'',
        shapekey_name = ''smile'', armature_name = [], bone_name = [],
        rotation_axis = ''X'', rotation_mode = ''EULER'',
        min_in = 0, max_in = 1, min_out = 0, max_out = 10, clamp = True, invert = True \<rparr>" and
     g = "\<lparr> GenericOSCMapping.address = ''/timeline/frame'',
        data_path = ''bpy.context.scene.frame_current'',
        min_in = 0, max_in = 1, min_out = 0, max_out = 10, clamp = True, invert = True \<rparr>" and
     v = "1 / 5"]
  by simp

section \<open>Claims about the server lifecycle\<close>

text \<open>
  C7. start_server on a running server returns the message "Server already started." and
  leaves the whole server state as it was: running flag, server, dispatcher, thread and
  queue; no second server is created.
\<close>

theorem start_server_already_running:
  assumes "running st"
  shows "start_server env ip port st = (Some ''Server already started.'', st)"
  using assms by (simp add: start_server_def)

theorem start_server_already_running_witness:
  "fst (start_server \<lparr> pythonosc_imported = True, create_server = (\<lambda>ip port. Inr (ip, port)) \<rparr>
          ''0.0.0.0'' 9000 osc_state) = None
   \<and> start_server \<lparr> pythonosc_imported = True, create_server = (\<lambda>ip port. Inr (ip, port)) \<rparr>
        ''127.0.0.1'' 9001
        (snd (start_server
                \<lparr> pythonosc_imported = True, create_server = (\<lambda>ip port. Inr (ip, port)) \<rparr>
                ''0.0.0.0'' 9000 osc_state))
     = (Some ''Server already started.'',
        \<lparr> server_thread = Some (Thread_serve (''0.0.0.0'', 9000)),
          server = Some (''0.0.0.0'', 9000),
          dispatcher = Some Dispatcher_default_osc_handler,
          msg_queue = \<lparr> maxsize = 0, queue = [] \<rparr>,
          running = True \<rparr>)"
  using start_server_already_running [where
     st = "snd (start_server
             \<lparr> pythonosc_imported = True, create_server = (\<lambda>ip port. Inr (ip, port)) \<rparr>
             ''0.0.0.0'' 9000 osc_state)" and
     env = "\<lparr> pythonosc_imported = True, create_server = (\<lambda>ip port. Inr (ip, port)) \<rparr>" and
     ip = "''127.0.0.1''" and
     port = 9001]
  by (simp add: start_server_def osc_state_def)

section \<open>Claims about the routing table\<close>

text \<open>
  C6. The table is a function of the two mapping collections alone: two contexts with the
  same character and generic collections give the same table, whatever else differs. The
  table is the grouping of the rules by address: character rules in collection order, then
  generic rules in collection order; addresses in order of first encounter; under each
  address its rules in that order.
\<close>

theorem build_mapping_table_extended_deterministic:
  assumes "osc_mappings (scene ctx) = osc_mappings (scene ctx')"
    and "osc_generic_mappings (scene ctx) = osc_generic_mappings (scene ctx')"
  shows "build_mapping_table_extended ctx = build_mapping_table_extended ctx'
       \<and> build_mapping_table_extended ctx = grouped_by_address (rules_of ctx)"
  using assms
  by (simp add: build_mapping_table_extended_grouped rules_of_def)

theorem build_mapping_table_extended_deterministic_witness:
  "build_mapping_table_extended (example_ctx\<lparr>scene := (scene example_ctx)\<lparr>osc_port := 9001\<rparr>\<rparr>) =
     [(''/x'', [OSC (OSCMapping_of_item locked_item), Generic (GenericOSCMapping_of_item frame_item)]),
      (''/face/smile'', [OSC (OSCMapping_of_item smile_item)]),
      (''/bare'', [OSC (OSCMapping_of_item bare_item)])]
   \<and> grouped_by_address (rules_of example_ctx) =
     [(''/x'', [OSC (OSCMapping_of_item locked_item), Generic (GenericOSCMapping_of_item frame_item)]),
      (''/face/smile'', [OSC (OSCMapping_of_item smile_item)]),
      (''/bare'', [OSC (OSCMapping_of_item bare_item)])]"
  using build_mapping_table_extended_deterministic [where
     ctx = example_ctx and ctx' = "example_ctx\<lparr>scene := (scene example_ctx)\<lparr>osc_port := 9001\<rparr>\<rparr>"]
  by (auto simp: example_table)

section \<open>Claims about the timer step\<close>

text \<open>
  C8. A drained message with no numeric argument, or with an address that is not a key of
  the table, produces no update command and raises nothing: its own contribution is the
  empty list, the batch around it collects what it would collect without it, and a tick
  whose queue holds only this message consumes it, leaves the host's data alone and asks
  for the next call in 0.01 s.
\<close>

theorem routing_miss_yields_no_update:
  assumes "(\<forall>a \<in> set args. \<not> is_numeric a)
           \<or> addr \<notin> fst ` set (build_mapping_table_extended ctx)"
  shows "message_updates (build_mapping_table_extended ctx) (addr, args) = Inr []
       \<and> collect_updates (build_mapping_table_extended ctx) (pre @ (addr, args) # post) =
           collect_updates (build_mapping_table_extended ctx) (pre @ post)
       \<and> (running st \<and> queue (msg_queue st) = [(addr, args)] \<longrightarrow>
            osc_timer_step_extended h ctx st w =
              (Inr (Some (1 / 100)), st\<lparr>msg_queue := (msg_queue st)\<lparr>queue := []\<rparr>\<rparr>, w))"
proof -
  have miss: "message_updates (build_mapping_table_extended ctx) (addr, args) = Inr []"
    using assms by (rule message_updates_miss)
  show ?thesis
  proof (intro conjI impI)
    show "message_updates (build_mapping_table_extended ctx) (addr, args) = Inr []"
      by (rule miss)
    show "collect_updates (build_mapping_table_extended ctx) (pre @ (addr, args) # post) =
        collect_updates (build_mapping_table_extended ctx) (pre @ post)"
      using miss by (rule collect_updates_skip)
    assume "running st \<and> queue (msg_queue st) = [(addr, args)]"
    then show "osc_timer_step_extended h ctx st w =
        (Inr (Some (1 / 100)), st\<lparr>msg_queue := (msg_queue st)\<lparr>queue := []\<rparr>\<rparr>, w)"
      using miss by (simp add: timer_step_single)
  qed
qed

theorem routing_miss_yields_no_update_witness:
  "osc_timer_step_extended recording_host example_ctx
     (osc_handler ''/x'' [OSCString ''hi'', OSCNil] (osc_state\<lparr>running := True\<rparr>)) [] =
     (Inr (Some (1 / 100)), osc_state\<lparr>running := True\<rparr>, [])
   \<and> osc_timer_step_extended recording_host example_ctx
     (osc_handler ''/nowhere'' [OSCFloat 1] (osc_state\<lparr>running := True\<rparr>)) [] =
     (Inr (Some (1 / 100)), osc_state\<lparr>running := True\<rparr>, [])"
  using routing_miss_yields_no_update [where
      args = "[OSCString ''hi'', OSCNil]" and addr = "''/x''" and ctx = example_ctx and
      pre = "[]" and post = "[]" and h = recording_host and w = "[]" and
      st = "osc_handler ''/x'' [OSCString ''hi'', OSCNil] (osc_state\<lparr>running := True\<rparr>)"]
    routing_miss_yields_no_update [where
      args = "[OSCFloat 1]" and addr = "''/nowhere''" and ctx = example_ctx and
      pre = "[]" and post = "[]" and h = recording_host and w = "[]" and
      st = "osc_handler ''/nowhere'' [OSCFloat 1] (osc_state\<lparr>running := True\<rparr>)"]
  by (simp add: example_table is_numeric_def osc_handler_def put_nowait_def osc_state_def)

text \<open>
  C10. A character rule with an empty shapekey_name and an empty bone_name or
  armature_name produces no update command when the commands are generated: alone, among
  the other rules of its address, and in a tick whose only rule it is and whose queue
  holds one message for its address; that message is consumed all the same.
\<close>

theorem malformed_character_rule_yields_no_update:
  assumes "OSCMapping.shapekey_name c = []"
    and "OSCMapping.bone_name c = [] \<or> OSCMapping.armature_name c = []"
  shows "mapping_updates (OSC c) val = Inr []
       \<and> rules_updates (pre @ OSC c # post) val = rules_updates (pre @ post) val
       \<and> (running st \<and> queue (msg_queue st) = [(OSCMapping.address c, args)]
            \<and> rules_of ctx = [OSC c] \<longrightarrow>
            osc_timer_step_extended h ctx st w =
              (Inr (Some (1 / 100)), st\<lparr>msg_queue := (msg_queue st)\<lparr>queue := []\<rparr>\<rparr>, w))"
proof -
  have none: "mapping_updates (OSC c) v = Inr []" for v
    using assms by (rule mapping_updates_malformed)
  have step: "osc_timer_step_extended h ctx st w =
      (Inr (Some (1 / 100)), st\<lparr>msg_queue := (msg_queue st)\<lparr>queue := []\<rparr>\<rparr>, w)"
    if r: "running st" and q: "queue (msg_queue st) = [(OSCMapping.address c, args)]"
      and rs: "rules_of ctx = [OSC c]"
  proof -
    have "build_mapping_table_extended ctx = [(OSCMapping.address c, [OSC c])]"
      by (simp add: build_mapping_table_extended_grouped rs grouped_by_address_single
            mapping_address_def)
    then have "message_updates (build_mapping_table_extended ctx) (OSCMapping.address c, args)
        = Inr []"
      by (simp add: message_updates_def none split: option.splits)
    with r q show ?thesis by (rule timer_step_single)
  qed
  show ?thesis
  proof (intro conjI impI)
    show "mapping_updates (OSC c) val = Inr []"
      by (rule none)
    show "rules_updates (pre @ OSC c # post) val = rules_updates (pre @ post) val"
      using none by (rule rules_updates_skip)
    assume "running st \<and> queue (msg_queue st) = [(OSCMapping.address c, args)]
        \<and> rules_of ctx = [OSC c]"
    then show "osc_timer_step_extended h ctx st w =
        (Inr (Some (1 / 100)), st\<lparr>msg_queue := (msg_queue st)\<lparr>queue := []\<rparr>\<rparr>, w)"
      using step by simp
  qed
qed

theorem malformed_character_rule_yields_no_update_witness:
  "mapping_updates (OSC (OSCMapping_of_item bare_item)) (1 / 2) = Inr []
   \<and> osc_timer_step_extended recording_host
       (example_ctx\<lparr>scene := (scene example_ctx)
          \<lparr>osc_mappings := [bare_item], osc_generic_mappings := []\<rparr>\<rparr>)
       (osc_handler ''/bare'' [OSCFloat (1 / 2)] (osc_state\<lparr>running := True\<rparr>)) [] =
     (Inr (Some (1 / 100)), osc_state\<lparr>running := True\<rparr>, [])"
  using malformed_character_rule_yields_no_update [where
      c = "OSCMapping_of_item bare_item" and val = "1 / 2" and pre = "[]" and post = "[]" and
      args = "[OSCFloat (1 / 2)]" and h = recording_host and w = "[]" and
      ctx = "example_ctx\<lparr>scene := (scene example_ctx)
          \<lparr>osc_mappings := [bare_item], osc_generic_mappings := []\<rparr>\<rparr>" and
      st = "osc_handler ''/bare'' [OSCFloat (1 / 2)] (osc_state\<lparr>running := True\<rparr>)"]
  by (simp add: OSCMapping_of_item_def bare_item_def strip_examples rules_of_def
        osc_handler_def put_nowait_def osc_state_def)

text \<open>
  C1, on a concrete batch. In the example scene the queue holds a message for /face/smile
  and one for /x. The tick generates three commands; applying the second one raises. The
  tick ends with the first two commands in the host's data and the third never applied,
  where applying the commands one by one, each failure contained, leaves all three; the
  tick still returns 0.01 with the server running.
\<close>

theorem apply_error_aborts_rest_of_batch:
  "collect_updates (build_mapping_table_extended example_ctx)
     [(''/face/smile'', [OSCFloat (1 / 2)]), (''/x'', [OSCString ''go'', OSCFloat (1 / 2)])] =
     Inr [Shapekey ''Face'' ''smile'' (1 / 2), Shapekey ''Face'' ''locked'' (1 / 2),
          GenericUpdate ''bpy.context.scene.frame_current'' 50]
   \<and> osc_timer_step_extended recording_host example_ctx
        (osc_handler ''/x'' [OSCString ''go'', OSCFloat (1 / 2)]
           (osc_handler ''/face/smile'' [OSCFloat (1 / 2)] (osc_state\<lparr>running := True\<rparr>)))
        [] =
     (Inr (Some (1 / 100)), osc_state\<lparr>running := True\<rparr>,
      [Shapekey ''Face'' ''smile'' (1 / 2), Shapekey ''Face'' ''locked'' (1 / 2)])
   \<and> apply_isolated recording_host
        [Shapekey ''Face'' ''smile'' (1 / 2), Shapekey ''Face'' ''locked'' (1 / 2),
         GenericUpdate ''bpy.context.scene.frame_current'' 50] [] =
     [Shapekey ''Face'' ''smile'' (1 / 2), Shapekey ''Face'' ''locked'' (1 / 2),
      GenericUpdate ''bpy.context.scene.frame_current'' 50]"
proof (intro conjI)
  show "osc_timer_step_extended recording_host example_ctx
        (osc_handler ''/x'' [OSCString ''go'', OSCFloat (1 / 2)]
           (osc_handler ''/face/smile'' [OSCFloat (1 / 2)] (osc_state\<lparr>running := True\<rparr>)))
        [] =
     (Inr (Some (1 / 100)), osc_state\<lparr>running := True\<rparr>,
      [Shapekey ''Face'' ''smile'' (1 / 2), Shapekey ''Face'' ''locked'' (1 / 2)])"
    unfolding example_pushes
    by (simp add: timer_step_running osc_state_def max_per_tick_def Let_def example_updates
          apply_all_def apply_update_def recording_host_def del: collect_updates.simps)
qed (simp_all add: example_updates apply_update_def recording_host_def
       del: collect_updates.simps)

section \<open>Claims about the message queue\<close>

text \<open>
  C2. When the queue holds its capacity C of messages (a positive maxsize C, and C items),
  the push of osc_handler is refused: put_nowait raises Full, osc_handler swallows it, the
  new message is dropped, the server state is what it was and the queue still holds C
  messages. put_nowait is the non-blocking put and osc_handler returns in every case.
\<close>

theorem osc_handler_drops_when_full:
  assumes "maxsize (msg_queue st) = C" and "0 < C"
    and "int (length (queue (msg_queue st))) = C"
  shows "put_nowait (msg_queue st) (addr, args) = Inl Full
       \<and> osc_handler addr args st = st
       \<and> int (length (queue (msg_queue (osc_handler addr args st)))) = C"
  using assms by (simp add: osc_handler_def put_nowait_def)

theorem osc_handler_drops_when_full_witness:
  "put_nowait \<lparr> maxsize = 2, queue = [(''/a'', [OSCFloat 0]), (''/b'', [OSCFloat 0])] \<rparr>
     (''/c'', [OSCFloat 1]) = Inl Full
   \<and> osc_handler ''/c'' [OSCFloat 1]
       (osc_handler ''/b'' [OSCFloat 0] (osc_handler ''/a'' [OSCFloat 0]
          (osc_state\<lparr>msg_queue := \<lparr> maxsize = 2, queue = [] \<rparr>\<rparr>))) =
     osc_state\<lparr>msg_queue :=
       \<lparr> maxsize = 2, queue = [(''/a'', [OSCFloat 0]), (''/b'', [OSCFloat 0])] \<rparr>\<rparr>"
  using osc_handler_drops_when_full [where
      st = "osc_handler ''/b'' [OSCFloat 0] (osc_handler ''/a'' [OSCFloat 0]
          (osc_state\<lparr>msg_queue := \<lparr> maxsize = 2, queue = [] \<rparr>\<rparr>))" and
      C = 2 and addr = "''/c''" and args = "[OSCFloat 1]"]
  by (simp add: osc_handler_def put_nowait_def osc_state_def)

end
